theory Spec2Isabelle
  imports Main "HOL-Library.Multiset"
begin

section \<open>Objects, identity and the trace of effects\<close>

text \<open>
  The program is a C++ class hierarchy. An object's identity is its address. Owning pointers
  (\<^verbatim>\<open>std::unique_ptr\<close>) have exactly one holder, so an owned object is modelled as a
  component of its owner and the element tree is a datatype; each node carries the address of
  the object it stands for. \<^verbatim>\<open>std::make_unique\<close> and \<^verbatim>\<open>std::make_shared\<close> take the next free
  address from an allocation counter that is passed through every function that allocates.
  Non-owning pointers (\<^verbatim>\<open>DocumentElement*\<close>, \<^verbatim>\<open>IDocumentObserver*\<close>, \<^verbatim>\<open>Document*\<close>) are
  addresses. Pointers are taken to be valid and non-null wherever the source dereferences
  them without a check.
\<close>

type_synonym addr = nat
type_synonym fmt_ref = nat
type_synonym obs_ref = nat
type_synonym doc_ref = nat

text \<open>
  Everything a function does besides changing objects is recorded, in order, in a list of
  events: the calls made on the \<^verbatim>\<open>IRenderer\<close> and \<^verbatim>\<open>IDocumentObserver\<close> interfaces and the
  lines written to \<^verbatim>\<open>std::cout\<close>. The renderer never returns anything to the tree, so a
  renderer is fully described by the calls it receives.
\<close>

datatype event =
    RenderText string bool bool   \<comment> \<open>\<^verbatim>\<open>renderer->renderText(text, bold, italic)\<close>\<close>
  | RenderImage string            \<comment> \<open>\<^verbatim>\<open>renderer->renderImage(path)\<close>\<close>
  | RenderTable int int           \<comment> \<open>\<^verbatim>\<open>renderer->renderTable(rows, cols)\<close>\<close>
  | StartSection                  \<comment> \<open>\<^verbatim>\<open>renderer->startSection()\<close>\<close>
  | EndSection                    \<comment> \<open>\<^verbatim>\<open>renderer->endSection()\<close>\<close>
  | OnDocumentChanged obs_ref     \<comment> \<open>\<^verbatim>\<open>observer->onDocumentChanged(this)\<close>\<close>
  | ProxyLoading string           \<comment> \<open>\<^verbatim>\<open>[Proxy] Loading image: <path>\<close>\<close>
  | AdapterNotice                 \<comment> \<open>\<^verbatim>\<open>[Adapter] Adapting legacy shape to modern interface...\<close>\<close>
  | LegacyRectangle int int int int  \<comment> \<open>\<^verbatim>\<open>[Legacy] Drawing rectangle at (x,y) size: wxh\<close>\<close>
  | FlyweightCreated string       \<comment> \<open>\<^verbatim>\<open>[Flyweight] Created new format: <key>\<close>\<close>
  | StatusBarLine nat nat         \<comment> \<open>\<^verbatim>\<open>[StatusBar] Elements: <n> | Words: <m>\<close>\<close>
  | StateChanged string           \<comment> \<open>\<^verbatim>\<open>[State] Document state changed to: <name>\<close>\<close>
  | EditNotice string             \<comment> \<open>the line \<^verbatim>\<open>DocumentState::edit\<close> prints\<close>
  | CommandExecuting              \<comment> \<open>\<^verbatim>\<open>[Command] Executing: Add Element\<close>\<close>
  | CommandUndoing                \<comment> \<open>\<^verbatim>\<open>[Command] Undoing: Add Element (simplified - not removing)\<close>\<close>
  | NothingToUndo                 \<comment> \<open>\<^verbatim>\<open>[Command] Nothing to undo\<close>\<close>
  | NothingToRedo                 \<comment> \<open>\<^verbatim>\<open>[Command] Nothing to redo\<close>\<close>

fun is_renderer_call :: "event \<Rightarrow> bool" where
  "is_renderer_call (RenderText t b i) = True"
| "is_renderer_call (RenderImage p) = True"
| "is_renderer_call (RenderTable r c) = True"
| "is_renderer_call StartSection = True"
| "is_renderer_call EndSection = True"
| "is_renderer_call e = False"

definition renderer_calls :: "event list \<Rightarrow> event list" where
  "renderer_calls t = filter is_renderer_call t"

fun is_materialization :: "event \<Rightarrow> bool" where
  "is_materialization (ProxyLoading p) = True"
| "is_materialization e = False"

definition materializations :: "event list \<Rightarrow> nat" where
  "materializations t = length (filter is_materialization t)"

section \<open>The element tree\<close>

text \<open>
  One constructor per concrete subclass of \<^verbatim>\<open>DocumentElement\<close>; the first argument is the
  object's address, the others are its data members in declaration order.
  \<^item> \<^verbatim>\<open>Paragraph\<close>: \<^verbatim>\<open>content\<close>, \<^verbatim>\<open>format\<close> (a \<^verbatim>\<open>shared_ptr<CharacterFormat>\<close>, possibly null);
  \<^item> \<^verbatim>\<open>Image\<close>: \<^verbatim>\<open>imagePath\<close>;
  \<^item> \<^verbatim>\<open>Table\<close>: \<^verbatim>\<open>rows\<close>, \<^verbatim>\<open>cols\<close>;
  \<^item> \<^verbatim>\<open>Section\<close>: \<^verbatim>\<open>children\<close>, \<^verbatim>\<open>sectionName\<close>;
  \<^item> \<^verbatim>\<open>BoldDecorator\<close>, \<^verbatim>\<open>ItalicDecorator\<close>: \<^verbatim>\<open>wrappedElement\<close>;
  \<^item> \<^verbatim>\<open>ImageProxy\<close>: \<^verbatim>\<open>imagePath\<close>, \<^verbatim>\<open>realImage\<close>. The owned \<^verbatim>\<open>Image\<close> is private to the proxy,
    is only ever built from the proxy's own \<^verbatim>\<open>imagePath\<close>, and neither path is assigned
    again, so the model keeps the address of the \<^verbatim>\<open>Image\<close> and reads its path from the proxy;
  \<^item> \<^verbatim>\<open>ShapeAdapter\<close>: \<^verbatim>\<open>x\<close>, \<^verbatim>\<open>y\<close>, \<^verbatim>\<open>width\<close>, \<^verbatim>\<open>height\<close>.
  The \<^verbatim>\<open>int\<close> members are only stored and printed, never computed with, so they are
  unbounded integers here.
\<close>

datatype DocumentElement =
    Paragraph addr string "fmt_ref option"
  | ImageElement addr string
  | Table addr int int
  | Section addr "DocumentElement list" string
  | BoldDecorator addr DocumentElement
  | ItalicDecorator addr DocumentElement
  | ImageProxy addr string "addr option"
  | ShapeAdapter addr int int int int

fun address :: "DocumentElement \<Rightarrow> addr" where
  "address (Paragraph a content fmt) = a"
| "address (ImageElement a path) = a"
| "address (Table a r c) = a"
| "address (Section a cs name) = a"
| "address (BoldDecorator a w) = a"
| "address (ItalicDecorator a w) = a"
| "address (ImageProxy a path img) = a"
| "address (ShapeAdapter a x y w h) = a"

text \<open>\<^verbatim>\<open>Section::getChildren\<close>; only ever called through a \<^verbatim>\<open>Section*\<close>.\<close>

fun getChildren :: "DocumentElement \<Rightarrow> DocumentElement list" where
  "getChildren (Section a cs name) = cs"
| "getChildren e = []"

text \<open>\<^verbatim>\<open>Section::add\<close>: \<^verbatim>\<open>children.push_back(std::move(el))\<close>.\<close>

fun add :: "DocumentElement \<Rightarrow> DocumentElement \<Rightarrow> DocumentElement" where
  "add el (Section a cs name) = Section a (cs @ [el]) name"
| "add el e = e"

text \<open>
  \<^verbatim>\<open>dynamic_cast<Paragraph*>(p)\<close> followed by \<^verbatim>\<open>getContent()\<close>, and
  \<^verbatim>\<open>dynamic_cast<Section*>(p)\<close>: no class of the program derives from \<^verbatim>\<open>Paragraph\<close> or
  \<^verbatim>\<open>Section\<close>, so the casts succeed on exactly these constructors.
\<close>

fun cast_Paragraph :: "DocumentElement \<Rightarrow> string option" where
  "cast_Paragraph (Paragraph a content fmt) = Some content"
| "cast_Paragraph e = None"

fun cast_Section :: "DocumentElement \<Rightarrow> bool" where
  "cast_Section (Section a cs name) = True"
| "cast_Section e = False"

subsection \<open>\<^verbatim>\<open>getType\<close>\<close>

fun getType :: "DocumentElement \<Rightarrow> string" where
  "getType (Paragraph a content fmt) = ''Paragraph''"
| "getType (ImageElement a path) = ''Image''"
| "getType (Table a r c) = ''Table''"
| "getType (Section a cs name) = ''Section''"
| "getType (BoldDecorator a w) = getType w"
| "getType (ItalicDecorator a w) = getType w"
| "getType (ImageProxy a path img) = ''ImageProxy''"
| "getType (ShapeAdapter a x y w h) = ''Shape''"

subsection \<open>\<^verbatim>\<open>clone\<close>\<close>

text \<open>
  Every \<^verbatim>\<open>clone\<close> allocates. \<^verbatim>\<open>Section::clone\<close> first makes the new, empty section and then
  adds a clone of each child in turn (\<open>clone_into\<close> is that loop, \<open>newSection\<close> its
  accumulator); a decorator clones the wrapped element first, since that is an argument
  of its \<^verbatim>\<open>make_unique\<close>; \<^verbatim>\<open>ImageProxy::clone\<close> builds a new proxy from the path alone.
\<close>

fun clone :: "DocumentElement \<Rightarrow> addr \<Rightarrow> DocumentElement \<times> addr"
and clone_into :: "DocumentElement list \<Rightarrow> DocumentElement \<Rightarrow> addr \<Rightarrow> DocumentElement \<times> addr"
where
  "clone (Paragraph a content fmt) n = (Paragraph n content fmt, Suc n)"
| "clone (ImageElement a path) n = (ImageElement n path, Suc n)"
| "clone (Table a r c) n = (Table n r c, Suc n)"
| "clone (Section a cs name) n = clone_into cs (Section n [] name) (Suc n)"
| "clone (BoldDecorator a w) n =
     (case clone w n of (w', n') \<Rightarrow> (BoldDecorator n' w', Suc n'))"
| "clone (ItalicDecorator a w) n =
     (case clone w n of (w', n') \<Rightarrow> (ItalicDecorator n' w', Suc n'))"
| "clone (ImageProxy a path img) n = (ImageProxy n path None, Suc n)"
| "clone (ShapeAdapter a x y w h) n = (ShapeAdapter n x y w h, Suc n)"
| "clone_into [] newSection n = (newSection, n)"
| "clone_into (child # cs) newSection n =
     (case clone child n of (c', n') \<Rightarrow> clone_into cs (add c' newSection) n')"

subsection \<open>\<^verbatim>\<open>draw\<close>\<close>

text \<open>
  \<open>draw e n\<close> returns the events of \<^verbatim>\<open>e->draw(renderer)\<close>, the element afterwards (drawing
  an \<^verbatim>\<open>ImageProxy\<close> may fill its \<^verbatim>\<open>mutable realImage\<close>) and the allocation counter afterwards.
  \<^verbatim>\<open>ImageProxy::loadImage\<close> is \<open>loadImage\<close>.
\<close>

fun loadImage :: "string \<Rightarrow> addr option \<Rightarrow> addr \<Rightarrow> event list \<times> addr option \<times> addr" where
  "loadImage imagePath None n = ([ProxyLoading imagePath], Some n, Suc n)"
| "loadImage imagePath (Some img) n = ([], Some img, n)"

fun draw :: "DocumentElement \<Rightarrow> addr \<Rightarrow> event list \<times> DocumentElement \<times> addr"
and draw_children :: "DocumentElement list \<Rightarrow> addr \<Rightarrow> event list \<times> DocumentElement list \<times> addr"
where
  "draw (Paragraph a content fmt) n = ([RenderText content False False], Paragraph a content fmt, n)"
| "draw (ImageElement a path) n = ([RenderImage path], ImageElement a path, n)"
| "draw (Table a r c) n = ([RenderTable r c], Table a r c, n)"
| "draw (Section a cs name) n =
     (case draw_children cs n of (t, cs', n') \<Rightarrow>
        ([StartSection] @ t @ [EndSection], Section a cs' name, n'))"
| "draw (BoldDecorator a w) n =
     (case cast_Paragraph w of
        Some content \<Rightarrow> ([RenderText content True False], BoldDecorator a w, n)
      | None \<Rightarrow> (case draw w n of (t, w', n') \<Rightarrow> (t, BoldDecorator a w', n')))"
| "draw (ItalicDecorator a w) n =
     (case cast_Paragraph w of
        Some content \<Rightarrow> ([RenderText content False True], ItalicDecorator a w, n)
      | None \<Rightarrow> (case draw w n of (t, w', n') \<Rightarrow> (t, ItalicDecorator a w', n')))"
| "draw (ImageProxy a path img) n =
     (case loadImage path img n of (t, img', n') \<Rightarrow>
        (t @ [RenderImage path], ImageProxy a path img', n'))"
| "draw (ShapeAdapter a x y w h) n =
     ([AdapterNotice, LegacyRectangle x y w h], ShapeAdapter a x y w h, n)"
| "draw_children [] n = ([], [], n)"
| "draw_children (child # cs) n =
     (case draw child n of (t, c', n') \<Rightarrow>
        (case draw_children cs n' of (ts, cs', n'') \<Rightarrow> (t @ ts, c' # cs', n'')))"

text \<open>\<open>draw_times k e n\<close>: \<open>k\<close> successive calls of \<^verbatim>\<open>draw\<close> on the same object.\<close>

fun draw_times :: "nat \<Rightarrow> DocumentElement \<Rightarrow> addr \<Rightarrow> event list \<times> DocumentElement \<times> addr" where
  "draw_times 0 e n = ([], e, n)"
| "draw_times (Suc k) e n =
     (case draw e n of (t, e', n') \<Rightarrow>
        (case draw_times k e' n' of (ts, e'', n'') \<Rightarrow> (t @ ts, e'', n'')))"

subsection \<open>\<^verbatim>\<open>ElementFactory\<close>\<close>

definition createParagraph :: "string \<Rightarrow> addr \<Rightarrow> DocumentElement \<times> addr" where
  "createParagraph text n = (Paragraph n text None, Suc n)"

definition createImage :: "string \<Rightarrow> addr \<Rightarrow> DocumentElement \<times> addr" where
  "createImage path n = (ImageElement n path, Suc n)"

definition createTable :: "int \<Rightarrow> int \<Rightarrow> addr \<Rightarrow> DocumentElement \<times> addr" where
  "createTable rows cols n = (Table n rows cols, Suc n)"

definition createSection :: "string \<Rightarrow> addr \<Rightarrow> DocumentElement \<times> addr" where
  "createSection name n = (Section n [] name, Suc n)"

section \<open>The document, its observers and its lifecycle state\<close>

text \<open>
  The subclasses of \<^verbatim>\<open>DocumentState\<close> have no data members, so a state object is its class.
\<close>

datatype DocumentState = DraftState | ReviewState | PublishedState

fun getStateName :: "DocumentState \<Rightarrow> string" where
  "getStateName DraftState = ''Draft''"
| "getStateName ReviewState = ''Review''"
| "getStateName PublishedState = ''Published''"

fun DocumentState_edit :: "DocumentState \<Rightarrow> event list" where
  "DocumentState_edit DraftState = [EditNotice ''Editing in Draft mode - all changes allowed'']"
| "DocumentState_edit ReviewState = [EditNotice ''Document in Review - limited editing allowed'']"
| "DocumentState_edit PublishedState = [EditNotice ''Document is Published - editing locked!'']"

record Document =
  rootSection :: DocumentElement
  observers :: "obs_ref list"
  currentState :: DocumentState
  pageSize :: string
  marginTop :: int
  marginBottom :: int
  marginLeft :: int
  marginRight :: int
  header :: string
  footer :: string

definition setState :: "DocumentState \<Rightarrow> Document \<Rightarrow> Document \<times> event list" where
  "setState state doc = (doc\<lparr>currentState := state\<rparr>, [StateChanged (getStateName state)])"

definition edit :: "Document \<Rightarrow> event list" where
  "edit doc = DocumentState_edit (currentState doc)"

text \<open>\<^verbatim>\<open>Document::Document()\<close>: a new root section named \<^verbatim>\<open>Root\<close>, then \<^verbatim>\<open>setState(DraftState)\<close>.\<close>

definition Document_new :: "addr \<Rightarrow> Document \<times> addr \<times> event list" where
  "Document_new n =
     (\<lparr>rootSection = Section n [] ''Root'', observers = [], currentState = DraftState,
       pageSize = ''A4'', marginTop = 20, marginBottom = 20, marginLeft = 20, marginRight = 20,
       header = [], footer = []\<rparr>,
      Suc n, [StateChanged ''Draft''])"

definition attach :: "obs_ref \<Rightarrow> Document \<Rightarrow> Document" where
  "attach observer doc = doc\<lparr>observers := observers doc @ [observer]\<rparr>"

definition detach :: "obs_ref \<Rightarrow> Document \<Rightarrow> Document" where
  "detach observer doc = doc\<lparr>observers := removeAll observer (observers doc)\<rparr>"

subsection \<open>The status bar, the one observer class\<close>

text \<open>
  \<^verbatim>\<open>while (iss >> word) wordCount++\<close>: each extraction skips leading white space of the
  classic locale and reads up to the next white space; it fails when nothing is left.
\<close>

definition isspace :: "char \<Rightarrow> bool" where
  "isspace c = (c \<in> {CHR '' '', CHR 0x09, CHR 0x0A, CHR 0x0B, CHR 0x0C, CHR 0x0D})"

definition extract_word :: "string \<Rightarrow> (string \<times> string) option" where
  "extract_word s =
     (case dropWhile isspace s of
        [] \<Rightarrow> None
      | c # cs \<Rightarrow> Some (takeWhile (\<lambda>x. \<not> isspace x) (c # cs), dropWhile (\<lambda>x. \<not> isspace x) (c # cs)))"

function count_words :: "string \<Rightarrow> nat \<Rightarrow> nat" where
  "count_words s wordCount =
     (case extract_word s of
        None \<Rightarrow> wordCount
      | Some (word, rest) \<Rightarrow> count_words rest (Suc wordCount))"
  by pat_completeness auto

lemma extract_word_shorter:
  assumes "extract_word s = Some (word, rest)"
  shows "length rest < length s"
proof -
  from assms obtain c cs where d: "dropWhile isspace s = c # cs"
    and r: "rest = dropWhile (\<lambda>x. \<not> isspace x) (c # cs)"
    by (auto simp: extract_word_def split: list.splits)
  from d have "\<not> isspace c"
    using hd_dropWhile [of isspace s] by simp
  with r have "rest = dropWhile (\<lambda>x. \<not> isspace x) cs" by simp
  then have "length rest \<le> length cs" by (simp add: length_dropWhile_le)
  moreover have "length (c # cs) \<le> length s"
    using length_dropWhile_le [of isspace s] d by simp
  ultimately show ?thesis by simp
qed

termination count_words
  by (relation "measure (\<lambda>(s, wordCount). length s)") (auto dest: extract_word_shorter)

declare count_words.simps [simp del]

text \<open>
  The two counters are \<^verbatim>\<open>int\<close> in the source and only ever incremented from zero. An
  \<^verbatim>\<open>int\<close> that is incremented past its largest value has no defined behaviour in C++; the
  counters here are natural numbers without a bound, so they follow the source for documents
  with fewer than \<open>2^31\<close> elements and words. No property below depends on their values.
\<close>

record StatusBar =
  wordCount :: nat
  elementCount :: nat

text \<open>
  \<^verbatim>\<open>StatusBar::countElements(Section*)\<close>; \<open>countChildren\<close> is its loop over the children.
\<close>

fun countElements :: "DocumentElement \<Rightarrow> StatusBar \<Rightarrow> StatusBar"
and countChildren :: "DocumentElement list \<Rightarrow> StatusBar \<Rightarrow> StatusBar"
where
  "countElements (Section a cs name) sb = countChildren cs sb"
| "countElements e sb = sb"
| "countChildren [] sb = sb"
| "countChildren (child # cs) sb =
     (let sb1 = sb\<lparr>elementCount := elementCount sb + 1\<rparr>;
          sb2 = (case cast_Paragraph child of
                   Some content \<Rightarrow> sb1\<lparr>wordCount := count_words content (wordCount sb1)\<rparr>
                 | None \<Rightarrow> sb1);
          sb3 = (if cast_Section child then countElements child sb2 else sb2)
      in countChildren cs sb3)"

text \<open>
  \<^verbatim>\<open>StatusBar::onDocumentChanged\<close> sets both counters to zero before counting, so the status
  bar afterwards depends on the document alone; it is returned together with the line printed.
\<close>

definition onDocumentChanged :: "Document \<Rightarrow> StatusBar \<times> event list" where
  "onDocumentChanged doc =
     (let sb = countElements (rootSection doc) \<lparr>wordCount = 0, elementCount = 0\<rparr>
      in (sb, [StatusBarLine (elementCount sb) (wordCount sb)]))"

subsection \<open>\<^verbatim>\<open>notifyObservers\<close> and \<^verbatim>\<open>addElement\<close>\<close>

fun notify_each :: "obs_ref list \<Rightarrow> Document \<Rightarrow> event list" where
  "notify_each [] doc = []"
| "notify_each (observer # os) doc =
     OnDocumentChanged observer # snd (onDocumentChanged doc) @ notify_each os doc"

definition notifyObservers :: "Document \<Rightarrow> event list" where
  "notifyObservers doc = notify_each (observers doc) doc"

definition addElement :: "DocumentElement \<Rightarrow> Document \<Rightarrow> Document \<times> event list" where
  "addElement el doc =
     (let doc' = doc\<lparr>rootSection := add el (rootSection doc)\<rparr>
      in (doc', notifyObservers doc'))"

definition Document_draw :: "Document \<Rightarrow> addr \<Rightarrow> event list \<times> Document \<times> addr" where
  "Document_draw doc n =
     (case draw (rootSection doc) n of (t, root', n') \<Rightarrow> (t, doc\<lparr>rootSection := root'\<rparr>, n'))"

section \<open>The flat iterator\<close>

text \<open>
  \<^verbatim>\<open>DocumentIterator\<close> keeps raw pointers to the elements. \<open>collectElements\<close> is given the
  vector \<^verbatim>\<open>elements\<close> and returns it extended; \<open>collectChildren\<close> is its loop.
\<close>

record DocumentIterator =
  elements :: "addr list"
  position :: nat

fun collectElements :: "DocumentElement \<Rightarrow> addr list \<Rightarrow> addr list"
and collectChildren :: "DocumentElement list \<Rightarrow> addr list \<Rightarrow> addr list"
where
  "collectElements (Section a cs name) els = collectChildren cs els"
| "collectElements e els = els"
| "collectChildren [] els = els"
| "collectChildren (child # cs) els =
     (let els1 = els @ [address child];
          els2 = (if cast_Section child then collectElements child els1 else els1)
      in collectChildren cs els2)"

definition DocumentIterator_new :: "Document \<Rightarrow> DocumentIterator" where
  "DocumentIterator_new doc = \<lparr>elements = collectElements (rootSection doc) [], position = 0\<rparr>"

definition hasNext :: "DocumentIterator \<Rightarrow> bool" where
  "hasNext it = (position it < length (elements it))"

text \<open>\<^verbatim>\<open>DocumentIterator::next\<close>; \<open>None\<close> is \<^verbatim>\<open>nullptr\<close>.\<close>

definition next_element :: "DocumentIterator \<Rightarrow> addr option \<times> DocumentIterator" where
  "next_element it =
     (if hasNext it then (Some (elements it ! position it), it\<lparr>position := position it + 1\<rparr>)
      else (None, it))"

definition reset :: "DocumentIterator \<Rightarrow> DocumentIterator" where
  "reset it = it\<lparr>position := 0\<rparr>"

text \<open>\<open>next_times k it\<close>: the results of \<open>k\<close> successive calls of \<^verbatim>\<open>next()\<close>.\<close>

fun next_times :: "nat \<Rightarrow> DocumentIterator \<Rightarrow> addr option list \<times> DocumentIterator" where
  "next_times 0 it = ([], it)"
| "next_times (Suc k) it =
     (case next_element it of (r, it') \<Rightarrow>
        (case next_times k it' of (rs, it'') \<Rightarrow> (r # rs, it'')))"

section \<open>Commands and the history\<close>

text \<open>
  A command holds a \<^verbatim>\<open>Document*\<close>, so the documents live in a store indexed by address, kept
  with the allocation counter. \<^verbatim>\<open>AddElementCommand\<close> is the one class that implements
  \<^verbatim>\<open>Command\<close>. A \<^verbatim>\<open>unique_ptr\<close> that has been moved from is null.
\<close>

record world =
  docs :: "doc_ref \<Rightarrow> Document"
  next_addr :: addr

record AddElementCommand =
  document :: doc_ref
  element :: "DocumentElement option"
  clonedElement :: "DocumentElement option"
  executed :: bool

definition AddElementCommand_new :: "doc_ref \<Rightarrow> DocumentElement \<Rightarrow> AddElementCommand" where
  "AddElementCommand_new doc el =
     \<lparr>document = doc, element = Some el, clonedElement = None, executed = False\<rparr>"

text \<open>\<open>add_to_document\<close> is the call \<^verbatim>\<open>document->addElement(std::move(element))\<close>.\<close>

definition add_to_document :: "doc_ref \<Rightarrow> DocumentElement \<Rightarrow> world \<Rightarrow> world \<times> event list" where
  "add_to_document d el w =
     (case addElement el (docs w d) of (doc', t) \<Rightarrow> (w\<lparr>docs := (docs w)(d := doc')\<rparr>, t))"

definition execute :: "AddElementCommand \<Rightarrow> world \<Rightarrow> AddElementCommand \<times> world \<times> event list" where
  "execute cmd w =
     (if \<not> executed cmd then
        (case element cmd of
           Some el \<Rightarrow>
             (case clone el (next_addr w) of (c, n') \<Rightarrow>
                (case add_to_document (document cmd) el (w\<lparr>next_addr := n'\<rparr>) of (w', t) \<Rightarrow>
                   (cmd\<lparr>element := None, clonedElement := Some c, executed := True\<rparr>,
                    w', CommandExecuting # t)))
         | None \<Rightarrow>
             (case clonedElement cmd of
                Some c \<Rightarrow>
                  (case clone c (next_addr w) of (el, n') \<Rightarrow>
                     (case add_to_document (document cmd) el (w\<lparr>next_addr := n'\<rparr>) of (w', t) \<Rightarrow>
                        (cmd\<lparr>element := None, executed := True\<rparr>, w', CommandExecuting # t)))
              | None \<Rightarrow> (cmd\<lparr>executed := True\<rparr>, w, [CommandExecuting])))
      else (cmd, w, []))"

definition AddElementCommand_undo :: "AddElementCommand \<Rightarrow> AddElementCommand \<times> event list" where
  "AddElementCommand_undo cmd = (cmd\<lparr>executed := False\<rparr>, [CommandUndoing])"

text \<open>The two stacks, top first.\<close>

record CommandHistory =
  undoStack :: "AddElementCommand list"
  redoStack :: "AddElementCommand list"

definition CommandHistory_new :: CommandHistory where
  "CommandHistory_new = \<lparr>undoStack = [], redoStack = []\<rparr>"

text \<open>\<^verbatim>\<open>while (!redoStack.empty()) redoStack.pop();\<close>\<close>

fun pop_all :: "'a list \<Rightarrow> 'a list" where
  "pop_all [] = []"
| "pop_all (cmd # rest) = pop_all rest"

definition executeCommand ::
  "AddElementCommand \<Rightarrow> CommandHistory \<Rightarrow> world \<Rightarrow> CommandHistory \<times> world \<times> event list" where
  "executeCommand cmd h w =
     (case execute cmd w of (cmd', w', t) \<Rightarrow>
        (h\<lparr>undoStack := cmd' # undoStack h, redoStack := pop_all (redoStack h)\<rparr>, w', t))"

definition undo :: "CommandHistory \<Rightarrow> world \<Rightarrow> CommandHistory \<times> world \<times> event list" where
  "undo h w =
     (case undoStack h of
        cmd # rest \<Rightarrow>
          (case AddElementCommand_undo cmd of (cmd', t) \<Rightarrow>
             (h\<lparr>undoStack := rest, redoStack := cmd' # redoStack h\<rparr>, w, t))
      | [] \<Rightarrow> (h, w, [NothingToUndo]))"

definition redo :: "CommandHistory \<Rightarrow> world \<Rightarrow> CommandHistory \<times> world \<times> event list" where
  "redo h w =
     (case redoStack h of
        cmd # rest \<Rightarrow>
          (case execute cmd w of (cmd', w', t) \<Rightarrow>
             (h\<lparr>redoStack := rest, undoStack := cmd' # undoStack h\<rparr>, w', t))
      | [] \<Rightarrow> (h, w, [NothingToRedo]))"

section \<open>The format cache\<close>

text \<open>
  \<^verbatim>\<open>std::to_string(int)\<close>: the decimal digits, with a minus sign for a negative number.
\<close>

fun digits :: "nat \<Rightarrow> string" where
  "digits n =
     (if n < 10 then [''0123456789'' ! n]
      else digits (n div 10) @ [''0123456789'' ! (n mod 10)])"

definition to_string :: "int \<Rightarrow> string" where
  "to_string i = (if i < 0 then CHR ''-'' # digits (nat (- i)) else digits (nat i))"

record CharacterFormat =
  fontName :: string
  fontSize :: int
  color :: string

text \<open>
  A \<^verbatim>\<open>shared_ptr<CharacterFormat>\<close> is the index of its object in \<open>pool\<close>, the list of
  the \<^verbatim>\<open>CharacterFormat\<close> objects \<^verbatim>\<open>make_shared\<close> has created so far; \<open>formats\<close> is the
  factory's \<^verbatim>\<open>std::map\<close>. Two handles denote the same instance exactly when they are equal.
\<close>

record CharacterFormatFactory =
  formats :: "string \<rightharpoonup> fmt_ref"
  pool :: "CharacterFormat list"

definition CharacterFormatFactory_new :: CharacterFormatFactory where
  "CharacterFormatFactory_new = \<lparr>formats = Map.empty, pool = []\<rparr>"

definition getKey :: "string \<Rightarrow> int \<Rightarrow> string \<Rightarrow> string" where
  "getKey font sz col = font @ ''_'' @ to_string sz @ ''_'' @ col"

definition getFormat ::
  "string \<Rightarrow> int \<Rightarrow> string \<Rightarrow> CharacterFormatFactory
     \<Rightarrow> fmt_ref \<times> CharacterFormatFactory \<times> event list" where
  "getFormat font sz col f =
     (let key = getKey font sz col in
      case formats f key of
        None \<Rightarrow>
          (length (pool f),
           f\<lparr>formats := (formats f)(key \<mapsto> length (pool f)),
              pool := pool f @ [\<lparr>fontName = font, fontSize = sz, color = col\<rparr>]\<rparr>,
           [FlyweightCreated key])
      | Some h \<Rightarrow> (h, f, []))"

section \<open>Notions used to state the properties\<close>

text \<open>
  \<open>objects e\<close>: the addresses of all objects of the subtree \<open>e\<close>, the element itself, the
  elements it owns and the images its proxies have loaded.
\<close>

fun objects :: "DocumentElement \<Rightarrow> addr set" where
  "objects (Paragraph a content fmt) = {a}"
| "objects (ImageElement a path) = {a}"
| "objects (Table a r c) = {a}"
| "objects (Section a cs name) = insert a (\<Union>c \<in> set cs. objects c)"
| "objects (BoldDecorator a w) = insert a (objects w)"
| "objects (ItalicDecorator a w) = insert a (objects w)"
| "objects (ImageProxy a path img) = insert a (set_option img)"
| "objects (ShapeAdapter a x y w h) = {a}"

text \<open>
  \<open>content_of e\<close>: the element without its identity, every address replaced by \<open>0\<close> and every
  proxy unloaded. What remains is the shape of the tree, the order of the children, the data
  members and the handles of the shared formats.
\<close>

fun content_of :: "DocumentElement \<Rightarrow> DocumentElement" where
  "content_of (Paragraph a content fmt) = Paragraph 0 content fmt"
| "content_of (ImageElement a path) = ImageElement 0 path"
| "content_of (Table a r c) = Table 0 r c"
| "content_of (Section a cs name) = Section 0 (map content_of cs) name"
| "content_of (BoldDecorator a w) = BoldDecorator 0 (content_of w)"
| "content_of (ItalicDecorator a w) = ItalicDecorator 0 (content_of w)"
| "content_of (ImageProxy a path img) = ImageProxy 0 path None"
| "content_of (ShapeAdapter a x y w h) = ShapeAdapter 0 x y w h"

text \<open>
  \<open>rendering e\<close>: the renderer calls of drawing \<open>e\<close>, written without the allocation counter;
  \<open>draw_rendering\<close> below shows that \<open>draw\<close> makes exactly these calls.
\<close>

fun rendering :: "DocumentElement \<Rightarrow> event list" where
  "rendering (Paragraph a content fmt) = [RenderText content False False]"
| "rendering (ImageElement a path) = [RenderImage path]"
| "rendering (Table a r c) = [RenderTable r c]"
| "rendering (Section a cs name) = [StartSection] @ concat (map rendering cs) @ [EndSection]"
| "rendering (BoldDecorator a w) =
     (case cast_Paragraph w of
        Some content \<Rightarrow> [RenderText content True False]
      | None \<Rightarrow> rendering w)"
| "rendering (ItalicDecorator a w) =
     (case cast_Paragraph w of
        Some content \<Rightarrow> [RenderText content False True]
      | None \<Rightarrow> rendering w)"
| "rendering (ImageProxy a path img) = [RenderImage path]"
| "rendering (ShapeAdapter a x y w h) = []"

text \<open>\<open>notified t\<close>: the observers called in the trace \<open>t\<close>, in the order of the calls.\<close>

fun notified :: "event list \<Rightarrow> obs_ref list" where
  "notified [] = []"
| "notified (OnDocumentChanged observer # t) = observer # notified t"
| "notified (e # t) = notified t"

text \<open>
  \<open>add_undo_redo d X w\<close>: on a new history, \<^verbatim>\<open>executeCommand\<close> of a new
  \<^verbatim>\<open>AddElementCommand\<close> for the document at \<open>d\<close> and the element \<open>X\<close>, then \<^verbatim>\<open>undo()\<close>, then
  \<^verbatim>\<open>redo()\<close>; the result is the world afterwards.
\<close>

definition add_undo_redo :: "doc_ref \<Rightarrow> DocumentElement \<Rightarrow> world \<Rightarrow> world" where
  "add_undo_redo d X w =
     (case executeCommand (AddElementCommand_new d X) CommandHistory_new w of (h1, w1, t1) \<Rightarrow>
      case undo h1 w1 of (h2, w2, t2) \<Rightarrow>
      case redo h2 w2 of (h3, w3, t3) \<Rightarrow> w3)"

text \<open>\<open>getFormats calls f\<close>: the factory after a sequence of \<^verbatim>\<open>getFormat\<close> calls.\<close>

fun getFormats ::
  "(string \<times> int \<times> string) list \<Rightarrow> CharacterFormatFactory \<Rightarrow> CharacterFormatFactory" where
  "getFormats [] f = f"
| "getFormats ((font, sz, col) # calls) f = getFormats calls (fst (snd (getFormat font sz col f)))"

text \<open>
  \<open>factory_wf f\<close>: every stored handle denotes an object of the pool, and no two keys share
  a handle. It holds of a new factory and is kept by \<^verbatim>\<open>getFormat\<close>.
\<close>

definition factory_wf :: "CharacterFormatFactory \<Rightarrow> bool" where
  "factory_wf f =
     ((\<forall>k h. formats f k = Some h \<longrightarrow> h < length (pool f))
      \<and> (\<forall>k k' h. formats f k = Some h \<longrightarrow> formats f k' = Some h \<longrightarrow> k = k'))"

text \<open>
  \<open>preorder e\<close>: the addresses of \<open>e\<close> and of what lies below it through sections only, each
  section before its children and the children from first to last. A decorator, like a
  leaf, contributes its own address and nothing of what it wraps.
\<close>

fun preorder :: "DocumentElement \<Rightarrow> addr list" where
  "preorder (Section a cs name) = a # concat (map preorder cs)"
| "preorder e = [address e]"

text \<open>
  \<open>all_addresses e\<close>: the address of every element of the tree \<open>e\<close>, wrapped elements
  included. \<open>wrapped_addresses e\<close>: the addresses of the elements that lie inside a decorator.
\<close>

fun all_addresses :: "DocumentElement \<Rightarrow> addr list" where
  "all_addresses (Section a cs name) = a # concat (map all_addresses cs)"
| "all_addresses (BoldDecorator a w) = a # all_addresses w"
| "all_addresses (ItalicDecorator a w) = a # all_addresses w"
| "all_addresses e = [address e]"

fun wrapped_addresses :: "DocumentElement \<Rightarrow> addr list" where
  "wrapped_addresses (Section a cs name) = concat (map wrapped_addresses cs)"
| "wrapped_addresses (BoldDecorator a w) = all_addresses w"
| "wrapped_addresses (ItalicDecorator a w) = all_addresses w"
| "wrapped_addresses e = []"

text \<open>
  A document with a bold paragraph, a section holding a table, and an image, added in this
  order to a new document.
\<close>

definition example_document :: Document where
  "example_document =
     fst (addElement (ImageElement 5 ''p.png'')
       (fst (addElement (Section 3 [Table 4 2 2] ''S'')
         (fst (addElement (BoldDecorator 2 (Paragraph 1 ''x'' None)) (fst (Document_new 0)))))))"

text \<open>
  \<open>tree_nodes e\<close>: the number of elements of the tree rooted at \<open>e\<close>, counting \<open>e\<close>, every
  child of a section and the element inside every decorator.
\<close>

fun tree_nodes :: "DocumentElement \<Rightarrow> nat" where
  "tree_nodes (Section a cs name) = Suc (sum_list (map tree_nodes cs))"
| "tree_nodes (BoldDecorator a w) = Suc (tree_nodes w)"
| "tree_nodes (ItalicDecorator a w) = Suc (tree_nodes w)"
| "tree_nodes e = 1"

section \<open>Properties of the type tags\<close>

text \<open>
  C4, as stated, fails: the tag of an image proxy is not the tag of the image it stands for.
\<close>

theorem getType_proxy_counterexample:
  "getType (ImageProxy 0 ''photo.jpg'' None) \<noteq> getType (ImageElement 1 ''photo.jpg'')"
  by simp

text \<open>
  C4 (amended): a bold or italic decorator around \<open>E\<close> reports the type tag of \<open>E\<close>; an image
  proxy, loaded or not, reports its own tag \<^verbatim>\<open>ImageProxy\<close>, which differs from the tag of
  an image.
\<close>

theorem getType_wrappers:
  "getType (BoldDecorator a E) = getType E
   \<and> getType (ItalicDecorator a E) = getType E
   \<and> getType (ImageProxy b r img) = ''ImageProxy''
   \<and> getType (ImageProxy b r img) \<noteq> getType (ImageElement c r)"
  by simp

section \<open>Properties of drawing\<close>

lemma renderer_calls_append [simp]:
  "renderer_calls (xs @ ys) = renderer_calls xs @ renderer_calls ys"
  by (simp add: renderer_calls_def)

lemma renderer_calls_Nil [simp]: "renderer_calls [] = []"
  by (simp add: renderer_calls_def)

lemma renderer_calls_Cons [simp]:
  "renderer_calls (e # t) = (if is_renderer_call e then e # renderer_calls t else renderer_calls t)"
  by (simp add: renderer_calls_def)

lemma draw_rendering:
  "renderer_calls (fst (draw e n)) = rendering e"
  "renderer_calls (fst (draw_children cs n)) = concat (map rendering cs)"
proof (induction e n and cs n rule: draw_draw_children.induct)
  case (7 a path img n)
  then show ?case by (cases img) simp_all
qed (auto split: prod.splits option.splits)

text \<open>
  C9: a decorator around a decorator draws what the inner decorator draws. Bold around italic
  around a paragraph makes the single call of italic around the paragraph, with the bold flag
  unset, and the other way round; around any inner decorator the outer one adds nothing.
\<close>

theorem decorators_do_not_compose:
  "fst (draw (BoldDecorator a (ItalicDecorator b (Paragraph c t f))) n) = [RenderText t False True]
   \<and> fst (draw (ItalicDecorator b (Paragraph c t f)) n) = [RenderText t False True]
   \<and> fst (draw (ItalicDecorator a (BoldDecorator b (Paragraph c t f))) n) = [RenderText t True False]
   \<and> fst (draw (BoldDecorator b (Paragraph c t f)) n) = [RenderText t True False]
   \<and> fst (draw (BoldDecorator a (ItalicDecorator b E)) n) = fst (draw (ItalicDecorator b E) n)
   \<and> fst (draw (BoldDecorator a (BoldDecorator b E)) n) = fst (draw (BoldDecorator b E) n)
   \<and> fst (draw (ItalicDecorator a (BoldDecorator b E)) n) = fst (draw (BoldDecorator b E) n)
   \<and> fst (draw (ItalicDecorator a (ItalicDecorator b E)) n) = fst (draw (ItalicDecorator b E) n)"
  by (simp split: prod.splits option.splits)

subsection \<open>The image proxy\<close>

lemma draw_times_loaded:
  "draw_times k (ImageProxy a p (Some i)) n =
     (replicate k (RenderImage p), ImageProxy a p (Some i), n)"
  by (induction k) simp_all

lemma materializations_replicate: "materializations (replicate k (RenderImage p)) = 0"
  by (induction k) (simp_all add: materializations_def)

text \<open>
  C6: drawing a proxy that has not loaded its image loads it, once, and keeps it; any number
  of later draws load nothing, allocate nothing and leave the kept image in place. So over
  the first draw and any \<open>k\<close> later ones there is exactly one load.
\<close>

theorem proxy_materializes_once:
  "draw (ImageProxy a p None) n = ([ProxyLoading p, RenderImage p], ImageProxy a p (Some n), Suc n)
   \<and> materializations (fst (draw (ImageProxy a p None) n)) = 1
   \<and> draw_times k (ImageProxy a p (Some i)) m =
        (replicate k (RenderImage p), ImageProxy a p (Some i), m)
   \<and> materializations (fst (draw_times k (ImageProxy a p (Some i)) m)) = 0
   \<and> materializations (fst (draw_times (Suc k) (ImageProxy a p None) n)) = 1"
  by (simp add: draw_times_loaded materializations_replicate)
     (simp add: materializations_def)

text \<open>
  C10: the clone of a proxy holds the path and no image, whether or not the proxy had loaded
  its image (also right after the proxy was drawn); the first draw of the clone therefore
  loads an image of its own.
\<close>

theorem clone_proxy_unloaded:
  "clone (ImageProxy a p img) n = (ImageProxy n p None, Suc n)
   \<and> fst (clone (fst (snd (draw (ImageProxy a p None) k))) n) = ImageProxy n p None
   \<and> draw (fst (clone (ImageProxy a p img) n)) m =
        ([ProxyLoading p, RenderImage p], ImageProxy n p (Some m), Suc m)
   \<and> materializations (fst (draw (fst (clone (ImageProxy a p (Some i)) n)) m)) = 1"
  by (simp add: materializations_def)

section \<open>Properties of cloning\<close>

text \<open>The loop of \<^verbatim>\<open>Section::clone\<close> extends the new section by one child per child.\<close>

lemma clone_into_Section:
  "\<exists>ys n'. clone_into cs (Section b xs nm) n = (Section b (xs @ ys) nm, n') \<and> length ys = length cs"
proof (induction cs arbitrary: xs n)
  case Nil
  then show ?case by simp
next
  case (Cons c cs)
  obtain c' n1 where c: "clone c n = (c', n1)" by (cases "clone c n")
  from Cons.IH [of "xs @ [c']" n1] obtain ys n' where
    "clone_into cs (Section b (xs @ [c']) nm) n1 = (Section b (xs @ c' # ys) nm, n')"
    "length ys = length cs" by auto
  with c show ?case by auto
qed

lemma cast_Paragraph_clone: "cast_Paragraph (fst (clone w n)) = cast_Paragraph w"
proof (cases w)
  case (Section a cs nm)
  from clone_into_Section [of cs n "[]" nm "Suc n"] show ?thesis
    by (auto simp: Section)
qed (auto split: prod.splits)

lemma clone_rendering:
  "rendering (fst (clone e n)) = rendering e"
  "\<forall>b xs nm. newSection = Section b xs nm \<longrightarrow>
     rendering (fst (clone_into cs newSection n)) =
       [StartSection] @ concat (map rendering (xs @ cs)) @ [EndSection]"
proof (induction e n and cs newSection n rule: clone_clone_into.induct)
  case (5 a w n)
  from 5 cast_Paragraph_clone [of w n] show ?case
    by (auto split: prod.splits option.splits)
next
  case (6 a w n)
  from 6 cast_Paragraph_clone [of w n] show ?case
    by (auto split: prod.splits option.splits)
qed (auto split: prod.splits)

lemma clone_content:
  "content_of (fst (clone e n)) = content_of e"
  "\<forall>b xs nm. newSection = Section b xs nm \<longrightarrow>
     content_of (fst (clone_into cs newSection n)) = Section 0 (map content_of (xs @ cs)) nm"
  by (induction e n and cs newSection n rule: clone_clone_into.induct)
     (auto split: prod.splits)

lemma clone_counter:
  "n \<le> snd (clone e n)"
  "n \<le> snd (clone_into cs newSection n)"
  by (induction e n and cs newSection n rule: clone_clone_into.induct)
     (auto split: prod.splits)

lemma objects_add: "objects (add c (Section b xs nm)) = objects (Section b xs nm) \<union> objects c"
  by auto

text \<open>Every object of a clone was allocated by the call that made it.\<close>

lemma clone_fresh:
  "objects (fst (clone e n)) \<subseteq> {n ..< snd (clone e n)}"
  "\<forall>b xs nm. newSection = Section b xs nm \<longrightarrow>
     objects (fst (clone_into cs newSection n))
       \<subseteq> objects newSection \<union> {n ..< snd (clone_into cs newSection n)}"
proof (induction e n and cs newSection n rule: clone_clone_into.induct)
  case (4 a cs name n)
  from 4 clone_counter(2) [of "Suc n" cs "Section n [] name"] show ?case
    by (auto split: prod.splits)
next
  case (5 a w n)
  from 5 clone_counter(1) [of n w] show ?case
    by (auto split: prod.splits)
next
  case (6 a w n)
  from 6 clone_counter(1) [of n w] show ?case
    by (auto split: prod.splits)
next
  case (10 child cs newSection n)
  show ?case
  proof (intro allI impI)
    fix b xs nm
    assume S: "newSection = Section b xs nm"
    obtain c' n' where c: "clone child n = (c', n')" by (cases "clone child n")
    let ?r = "clone_into cs (add c' newSection) n'"
    have 1: "objects c' \<subseteq> {n ..< n'}" using 10(1) c by simp
    have 2: "objects (fst ?r) \<subseteq> objects (add c' newSection) \<union> {n' ..< snd ?r}"
      using 10(2) [OF c [symmetric]] S by simp
    have 3: "n \<le> n'" using clone_counter(1) [of n child] c by simp
    have 4: "n' \<le> snd ?r" by (rule clone_counter(2))
    have 5: "objects (add c' newSection) = objects newSection \<union> objects c'"
      unfolding S by (rule objects_add)
    have "objects (fst ?r) \<subseteq> objects newSection \<union> {n ..< snd ?r}"
    proof
      fix x assume "x \<in> objects (fst ?r)"
      with 2 5 have "x \<in> objects newSection \<or> x \<in> objects c' \<or> x \<in> {n' ..< snd ?r}" by auto
      with 1 3 4 show "x \<in> objects newSection \<union> {n ..< snd ?r}" by auto
    qed
    with c show "objects (fst (clone_into (child # cs) newSection n))
        \<subseteq> objects newSection \<union> {n ..< snd (clone_into (child # cs) newSection n)}"
      by simp
  qed
qed auto

lemma clone_disjoint:
  assumes "objects e \<subseteq> {..< n}"
  shows "objects (fst (clone e n)) \<inter> objects e = {}"
proof -
  have "\<forall>x \<in> objects (fst (clone e n)). n \<le> x"
    using clone_fresh(1) [of e n] by auto
  moreover have "\<forall>x \<in> objects e. x < n"
    using assms by auto
  ultimately show ?thesis by fastforce
qed

lemma clone_Section_children:
  "map content_of (getChildren (fst (clone (Section a cs nm) n))) = map content_of cs"
proof -
  from clone_into_Section [of cs n "[]" nm "Suc n"] obtain ys n' where
    ys: "clone (Section a cs nm) n = (Section n ys nm, n')" by auto
  from clone_content(1) [of "Section a cs nm" n] ys show ?thesis by simp
qed

text \<open>
  C2: for every element \<open>E\<close>, drawing the clone of \<open>E\<close> makes the same renderer calls, in the
  same order, as drawing \<open>E\<close> (whatever the allocation counters, and whether or not proxies
  of \<open>E\<close> have loaded their images). The clone has the content of \<open>E\<close>, with the same format
  handles; the clone of a section has as many children as the section, the \<open>i\<close>-th with the
  content of the \<open>i\<close>-th. Every object of the clone is newly allocated, so when the objects of
  \<open>E\<close> were allocated before the call, the clone shares no object with \<open>E\<close>.
\<close>

theorem clone_draws_identically:
  "renderer_calls (fst (draw (fst (clone E n)) m)) = renderer_calls (fst (draw E m'))
   \<and> content_of (fst (clone E n)) = content_of E
   \<and> map content_of (getChildren (fst (clone (Section a cs nm) n))) = map content_of cs
   \<and> length (getChildren (fst (clone (Section a cs nm) n))) = length cs
   \<and> objects (fst (clone E n)) \<subseteq> {n ..< snd (clone E n)}
   \<and> (objects E \<subseteq> {..< n} \<longrightarrow> objects (fst (clone E n)) \<inter> objects E = {})"
proof (intro conjI impI)
  show "renderer_calls (fst (draw (fst (clone E n)) m)) = renderer_calls (fst (draw E m'))"
    by (simp add: draw_rendering(1) clone_rendering(1))
  show "content_of (fst (clone E n)) = content_of E"
    by (rule clone_content(1))
  show c: "map content_of (getChildren (fst (clone (Section a cs nm) n))) = map content_of cs"
    by (rule clone_Section_children)
  from arg_cong [OF c, of length]
  show "length (getChildren (fst (clone (Section a cs nm) n))) = length cs"
    by simp
  show "objects (fst (clone E n)) \<subseteq> {n ..< snd (clone E n)}"
    by (rule clone_fresh(1))
  show "objects (fst (clone E n)) \<inter> objects E = {}" if "objects E \<subseteq> {..< n}"
    using that by (rule clone_disjoint)
qed

text \<open>
  The theorem at a section that holds a paragraph with a format, a bold paragraph and a loaded
  proxy, all allocated below \<open>6\<close>.
\<close>

theorem clone_draws_identically_witness:
  "objects (Section 0 [Paragraph 1 ''a'' (Some 0), BoldDecorator 3 (Paragraph 2 ''b'' None),
                     ImageProxy 4 ''p.png'' (Some 5)] ''S'') \<subseteq> {..< 6}
   \<and> objects (fst (clone (Section 0 [Paragraph 1 ''a'' (Some 0),
                     BoldDecorator 3 (Paragraph 2 ''b'' None),
                     ImageProxy 4 ''p.png'' (Some 5)] ''S'') 6))
       \<inter> objects (Section 0 [Paragraph 1 ''a'' (Some 0), BoldDecorator 3 (Paragraph 2 ''b'' None),
                     ImageProxy 4 ''p.png'' (Some 5)] ''S'') = {}
   \<and> fst (clone (Section 0 [Paragraph 1 ''a'' (Some 0), BoldDecorator 3 (Paragraph 2 ''b'' None),
                     ImageProxy 4 ''p.png'' (Some 5)] ''S'') 6)
       = Section 6 [Paragraph 7 ''a'' (Some 0), BoldDecorator 9 (Paragraph 8 ''b'' None),
                     ImageProxy 10 ''p.png'' None] ''S''"
proof -
  let ?E = "Section 0 [Paragraph 1 ''a'' (Some 0), BoldDecorator 3 (Paragraph 2 ''b'' None),
                     ImageProxy 4 ''p.png'' (Some 5)] ''S''"
  have h: "objects ?E \<subseteq> {..< 6}" by simp
  have c: "fst (clone ?E 6) = Section 6 [Paragraph 7 ''a'' (Some 0),
                     BoldDecorator 9 (Paragraph 8 ''b'' None),
                     ImageProxy 10 ''p.png'' None] ''S''"
    by (simp add: eval_nat_numeral)
  from clone_draws_identically [of ?E 6 0 0 0 "[]" "[]"] h
  have "objects (fst (clone ?E 6)) \<inter> objects ?E = {}" by blast
  with h c show ?thesis by blast
qed

section \<open>Properties of adding to the document\<close>

lemma notified_notify_each: "notified (notify_each os doc) = os"
  by (induction os) (simp_all add: onDocumentChanged_def Let_def)

text \<open>
  C8: in every document, whatever its lifecycle state, \<^verbatim>\<open>addElement(E)\<close> returns with \<open>E\<close>
  appended to the children of the root section, the lifecycle state and the observer list as
  they were, and, within the call, one \<^verbatim>\<open>onDocumentChanged\<close> per registered observer in the
  order of registration, each seeing the document that already holds \<open>E\<close>.
\<close>

theorem addElement_appends_and_notifies:
  "getChildren (rootSection (fst (addElement E (D\<lparr>rootSection := Section a cs nm\<rparr>)))) = cs @ [E]
   \<and> rootSection (fst (addElement E D)) = add E (rootSection D)
   \<and> currentState (fst (addElement E D)) = currentState D
   \<and> observers (fst (addElement E D)) = observers D
   \<and> snd (addElement E D) = notify_each (observers D) (fst (addElement E D))
   \<and> notified (snd (addElement E D)) = observers D
   \<and> notified (snd (addElement E (attach o2 (attach o1 D)))) = observers D @ [o1, o2]"
  by (simp add: addElement_def Let_def notifyObservers_def notified_notify_each attach_def)

section \<open>Properties of the iterator\<close>

lemma next_times_exhausted:
  "\<not> hasNext it \<Longrightarrow> next_times k it = (replicate k None, it)"
  by (induction k) (simp_all add: next_element_def)

lemma next_times_from:
  "position it \<le> length (elements it) \<Longrightarrow>
   next_times (length (elements it) - position it + k) it =
     (map Some (drop (position it) (elements it)) @ replicate k None,
      it\<lparr>position := length (elements it)\<rparr>)"
proof (induction "length (elements it) - position it" arbitrary: it)
  case 0
  then have "position it = length (elements it)" by simp
  then have "\<not> hasNext it" "it\<lparr>position := length (elements it)\<rparr> = it"
    by (simp_all add: hasNext_def)
  with 0 next_times_exhausted [of it k] show ?case by simp
next
  case (Suc d)
  let ?it' = "it\<lparr>position := position it + 1\<rparr>"
  from Suc.hyps(2) have lt: "position it < length (elements it)" by simp
  then have ne: "next_element it = (Some (elements it ! position it), ?it')"
    by (simp add: next_element_def hasNext_def)
  have d: "d = length (elements ?it') - position ?it'" using Suc.hyps(2) by simp
  have le: "position ?it' \<le> length (elements ?it')" using lt by simp
  from Suc.hyps(1) [OF d le]
  have "next_times (d + k) ?it' =
     (map Some (drop (Suc (position it)) (elements it)) @ replicate k None,
      it\<lparr>position := length (elements it)\<rparr>)" using d by simp
  moreover have "drop (position it) (elements it)
      = elements it ! position it # drop (Suc (position it)) (elements it)"
    using lt by (simp add: Cons_nth_drop_Suc)
  moreover have "length (elements it) - position it + k = Suc (d + k)"
    using Suc.hyps(2) by simp
  ultimately show ?case using ne by simp
qed

lemma next_element_inv:
  "position it \<le> length (elements it) \<Longrightarrow>
   position (snd (next_element it)) \<le> length (elements (snd (next_element it)))
   \<and> elements (snd (next_element it)) = elements it"
  by (simp add: next_element_def hasNext_def)

lemma snd_next_times_Suc:
  "snd (next_times (Suc j) it) = snd (next_times j (snd (next_element it)))"
  by (simp split: prod.splits)

lemma next_times_inv:
  "position it \<le> length (elements it) \<Longrightarrow>
   position (snd (next_times j it)) \<le> length (elements (snd (next_times j it)))
   \<and> elements (snd (next_times j it)) = elements it"
proof (induction j arbitrary: it)
  case 0
  then show ?case by simp
next
  case (Suc j)
  let ?it' = "snd (next_element it)"
  from next_element_inv [OF Suc.prems]
  have a: "position ?it' \<le> length (elements ?it')" and b: "elements ?it' = elements it"
    by blast+
  from Suc.IH [OF a]
  have c: "position (snd (next_times j ?it')) \<le> length (elements (snd (next_times j ?it')))"
    and d: "elements (snd (next_times j ?it')) = elements ?it'"
    by blast+
  show ?case unfolding snd_next_times_Suc
  proof (intro conjI)
    show "position (snd (next_times j ?it')) \<le> length (elements (snd (next_times j ?it')))"
      by (rule c)
    show "elements (snd (next_times j ?it')) = elements it"
      using d b by (rule trans)
  qed
qed

text \<open>The iterator collects the elements below the root in pre-order.\<close>

lemma preorder_children:
  "preorder e = address e # concat (map preorder (getChildren e))"
  by (cases e) simp_all

lemma getChildren_not_Section: "\<not> cast_Section e \<Longrightarrow> getChildren e = []"
  by (cases e) simp_all

lemma collect_preorder:
  "collectElements e els = els @ concat (map preorder (getChildren e))"
  "collectChildren cs els = els @ concat (map preorder cs)"
proof (induction e els and cs els rule: collectElements_collectChildren.induct)
  case (4 child cs els)
  let ?els1 = "els @ [address child]"
  let ?els2 = "if cast_Section child then collectElements child ?els1 else ?els1"
  have "?els2 = ?els1 @ concat (map preorder (getChildren child))"
  proof (cases "cast_Section child")
    case True
    with 4(1) [OF refl True] show ?thesis by simp
  next
    case False
    then show ?thesis by (simp add: getChildren_not_Section)
  qed
  then have e2: "?els2 = els @ preorder child"
    using preorder_children [of child] by simp
  have "collectChildren cs ?els2 = ?els2 @ concat (map preorder cs)"
    using 4(2) [OF refl refl] by simp
  with e2 have "collectChildren cs ?els2 = els @ concat (map preorder (child # cs))"
    by simp
  then show ?case by (simp only: collectChildren.simps Let_def)
qed simp_all

text \<open>
  Every element of the tree is either reached through sections or lies inside a decorator,
  so with distinct addresses what the iterator collects is apart from the root and from
  everything wrapped.
\<close>

lemma tree_nodes_all_addresses: "length (all_addresses e) = tree_nodes e"
  by (induction e rule: all_addresses.induct)
     (simp_all add: length_concat comp_def cong: map_cong)

lemma mset_all_addresses:
  "mset (all_addresses e) = mset (preorder e) + mset (wrapped_addresses e)"
proof (induction e rule: all_addresses.induct)
  case (1 a cs name)
  have "mset (concat (map all_addresses cs))
      = mset (concat (map preorder cs)) + mset (concat (map wrapped_addresses cs))"
    using 1 by (induction cs) simp_all
  then show ?case by simp
qed simp_all

lemma yielded_apart:
  assumes "distinct (all_addresses e)"
  shows "address e \<notin> set (concat (map preorder (getChildren e)))
    \<and> set (concat (map preorder (getChildren e))) \<inter> set (wrapped_addresses e) = {}"
proof -
  have "mset (all_addresses e) = mset (preorder e @ wrapped_addresses e)"
    by (simp add: mset_all_addresses)
  with assms have "distinct (preorder e @ wrapped_addresses e)"
    using mset_eq_imp_distinct_iff by blast
  then show ?thesis
    unfolding preorder_children [of e] by auto
qed

text \<open>
  C5, as stated, fails: the tree of a new document to which one bold paragraph has been added
  has three elements (the root section, the decorator, the paragraph), and the first three
  calls of \<^verbatim>\<open>next()\<close> return one element and then \<^verbatim>\<open>nullptr\<close> twice.
\<close>

theorem iterator_count_counterexample:
  "tree_nodes (rootSection (fst (addElement (BoldDecorator 2 (Paragraph 1 ''x'' None))
       (fst (Document_new 0))))) = 3
   \<and> fst (next_times 3 (DocumentIterator_new
        (fst (addElement (BoldDecorator 2 (Paragraph 1 ''x'' None)) (fst (Document_new 0))))))
      = [Some 2, None, None]
   \<and> length (removeAll None (fst (next_times 3 (DocumentIterator_new
        (fst (addElement (BoldDecorator 2 (Paragraph 1 ''x'' None)) (fst (Document_new 0))))))))
      \<noteq> tree_nodes (rootSection (fst (addElement (BoldDecorator 2 (Paragraph 1 ''x'' None))
       (fst (Document_new 0)))))"
  by (simp add: addElement_def Document_new_def DocumentIterator_new_def Let_def
      next_element_def hasNext_def eval_nat_numeral)

text \<open>
  C5 (amended): an iterator made from a document returns, over repeated calls of \<^verbatim>\<open>next()\<close>,
  exactly the elements below the root section in pre-order: the children of the root from
  first to last, each child that is a section followed at once by what lies below it in the
  same way. A decorator is returned as one element, and so is a leaf. With \<open>N\<close> the number of
  these elements, the first \<open>N\<close> calls return them, each once, and every later call returns
  \<^verbatim>\<open>nullptr\<close> and leaves the iterator as it is. \<^verbatim>\<open>reset()\<close> keeps the collected elements and
  gives back the iterator as constructed, so the same results follow again. When the
  elements of the tree have distinct addresses, neither the root section nor any element
  inside a decorator is among the results.
\<close>

theorem iterator_yields_preorder:
  "elements (DocumentIterator_new doc) = concat (map preorder (getChildren (rootSection doc)))
   \<and> preorder (Section a cs nm) = a # concat (map preorder cs)
   \<and> preorder (BoldDecorator b w) = [b]
   \<and> preorder (ItalicDecorator b w) = [b]
   \<and> next_times (length (concat (map preorder (getChildren (rootSection doc)))) + k)
        (DocumentIterator_new doc) =
       (map Some (concat (map preorder (getChildren (rootSection doc)))) @ replicate k None,
        (DocumentIterator_new doc)
          \<lparr>position := length (concat (map preorder (getChildren (rootSection doc))))\<rparr>)
   \<and> reset (snd (next_times j (DocumentIterator_new doc))) = DocumentIterator_new doc
   \<and> fst (next_times (length (concat (map preorder (getChildren (rootSection doc)))) + k)
        (reset (snd (next_times j (DocumentIterator_new doc))))) =
       map Some (concat (map preorder (getChildren (rootSection doc)))) @ replicate k None
   \<and> elements (reset it) = elements it
   \<and> (distinct (all_addresses (rootSection doc)) \<longrightarrow>
        address (rootSection doc) \<notin> set (elements (DocumentIterator_new doc))
        \<and> set (elements (DocumentIterator_new doc))
            \<inter> set (wrapped_addresses (rootSection doc)) = {})"
proof -
  let ?it = "DocumentIterator_new doc"
  let ?pre = "concat (map preorder (getChildren (rootSection doc)))"
  have els: "elements ?it = ?pre"
    using collect_preorder(1) [of "rootSection doc" "[]"]
    by (simp add: DocumentIterator_new_def)
  have p: "position ?it = 0" by (simp add: DocumentIterator_new_def)
  then have le: "position ?it \<le> length (elements ?it)" by simp
  have run: "next_times (length ?pre + k) ?it =
      (map Some ?pre @ replicate k None, ?it\<lparr>position := length ?pre\<rparr>)"
    using next_times_from [OF le, of k] p els by simp
  from next_times_inv [OF le, of j]
  have "elements (snd (next_times j ?it)) = elements ?it" by simp
  then have rs: "reset (snd (next_times j ?it)) = ?it"
    by (simp add: reset_def DocumentIterator_new_def)
  have again: "fst (next_times (length ?pre + k) (reset (snd (next_times j ?it)))) =
      map Some ?pre @ replicate k None"
    by (simp only: rs run fst_conv)
  have keep: "elements (reset it) = elements it" by (simp add: reset_def)
  have apart: "address (rootSection doc) \<notin> set (elements ?it)
      \<and> set (elements ?it) \<inter> set (wrapped_addresses (rootSection doc)) = {}"
    if "distinct (all_addresses (rootSection doc))"
    using yielded_apart [OF that] unfolding els .
  have "preorder (Section a cs nm) = a # concat (map preorder cs)"
    and "preorder (BoldDecorator b w) = [b]" and "preorder (ItalicDecorator b w) = [b]"
    by simp_all
  with els run rs again keep apart show ?thesis by blast
qed

text \<open>
  The theorem at the example document: the root is at \<open>0\<close>, the paragraph inside the bold
  decorator at \<open>1\<close>; the iterator returns the decorator, the section, its table and the image.
\<close>

theorem iterator_yields_preorder_witness:
  "distinct (all_addresses (rootSection example_document))
   \<and> elements (DocumentIterator_new example_document) = [2, 3, 4, 5]
   \<and> wrapped_addresses (rootSection example_document) = [1]
   \<and> address (rootSection example_document) \<notin> set (elements (DocumentIterator_new example_document))
   \<and> set (elements (DocumentIterator_new example_document))
        \<inter> set (wrapped_addresses (rootSection example_document)) = {}"
proof -
  have root: "rootSection example_document =
      Section 0 [BoldDecorator 2 (Paragraph 1 ''x'' None), Section 3 [Table 4 2 2] ''S'',
                 ImageElement 5 ''p.png''] ''Root''"
    by (simp add: example_document_def addElement_def Document_new_def Let_def)
  have h: "distinct (all_addresses (rootSection example_document))"
    by (simp add: root)
  have w: "wrapped_addresses (rootSection example_document) = [1]"
    by (simp add: root)
  from iterator_yields_preorder [of example_document 0 "[]" "[]" 0 undefined 0 0
      "DocumentIterator_new example_document"]
  have els: "elements (DocumentIterator_new example_document)
      = concat (map preorder (getChildren (rootSection example_document)))"
    and apart: "distinct (all_addresses (rootSection example_document)) \<longrightarrow>
        address (rootSection example_document)
          \<notin> set (elements (DocumentIterator_new example_document))
        \<and> set (elements (DocumentIterator_new example_document))
            \<inter> set (wrapped_addresses (rootSection example_document)) = {}"
    by blast+
  from els have e: "elements (DocumentIterator_new example_document) = [2, 3, 4, 5]"
    by (simp add: root)
  from apart h e w show ?thesis by blast
qed

section \<open>Properties of the command history\<close>

lemma pop_all_Nil [simp]: "pop_all xs = []"
  by (induction xs) simp_all

text \<open>
  C7: on every history, \<^verbatim>\<open>undo()\<close> with an empty undo stack prints \<^verbatim>\<open>Nothing to undo\<close> and
  changes neither stack nor any document, and \<^verbatim>\<open>redo()\<close> with an empty redo stack does the
  same with \<^verbatim>\<open>Nothing to redo\<close>. \<^verbatim>\<open>executeCommand\<close> executes the command at once (the world
  and the output are those of \<^verbatim>\<open>execute\<close>; for a new add command the document is the one
  \<^verbatim>\<open>addElement\<close> returns), pushes the executed command on the undo stack and leaves the redo
  stack empty.
\<close>

theorem history_operations:
  "undo (h\<lparr>undoStack := []\<rparr>) w = (h\<lparr>undoStack := []\<rparr>, w, [NothingToUndo])
   \<and> redo (h\<lparr>redoStack := []\<rparr>) w = (h\<lparr>redoStack := []\<rparr>, w, [NothingToRedo])
   \<and> executeCommand cmd h w =
        (h\<lparr>undoStack := fst (execute cmd w) # undoStack h, redoStack := []\<rparr>,
         fst (snd (execute cmd w)), snd (snd (execute cmd w)))
   \<and> docs (fst (snd (executeCommand (AddElementCommand_new d X) h w))) d
        = fst (addElement X (docs w d))
   \<and> executed (hd (undoStack (fst (executeCommand (AddElementCommand_new d X) h w))))"
  by (simp add: undo_def redo_def executeCommand_def execute_def AddElementCommand_new_def
      add_to_document_def split: prod.splits)

text \<open>
  Add, undo, redo on any document: \<^verbatim>\<open>undo\<close> removes nothing and \<^verbatim>\<open>redo\<close> adds a clone of the
  kept clone, so the root section ends with \<open>X\<close> followed by a second element.
\<close>

lemma add_undo_redo_children:
  "getChildren (rootSection (docs (add_undo_redo d X
       (w\<lparr>docs := (docs w)(d := D\<lparr>rootSection := Section a cs nm\<rparr>)\<rparr>)) d))
     = cs @ [X, fst (clone (fst (clone X (next_addr w))) (snd (clone X (next_addr w))))]"
  by (simp add: add_undo_redo_def executeCommand_def undo_def redo_def execute_def
      AddElementCommand_new_def AddElementCommand_undo_def CommandHistory_new_def
      add_to_document_def addElement_def Let_def split: prod.splits)

text \<open>
  C1 (the code at a failing input): a new document, the paragraph that \<^verbatim>\<open>main\<close> adds through
  the history; after add, undo, redo the root section holds the paragraph and a copy of it.
\<close>

theorem add_undo_redo_adds_twice:
  "getChildren (rootSection (docs (add_undo_redo 0 (Paragraph 1 ''Command pattern test'' None)
       \<lparr>docs = (\<lambda>d. fst (Document_new 0)), next_addr = 2\<rparr>) 0))
   = [Paragraph 1 ''Command pattern test'' None, Paragraph 3 ''Command pattern test'' None]"
  by (simp add: add_undo_redo_def executeCommand_def undo_def redo_def execute_def
      AddElementCommand_new_def AddElementCommand_undo_def CommandHistory_new_def
      add_to_document_def addElement_def Document_new_def Let_def eval_nat_numeral)

section \<open>Properties of the format cache\<close>

text \<open>What holds: a key, once stored, keeps its handle, so equal triples get the same instance.\<close>

lemma getFormat_keeps:
  "formats f k = Some h \<Longrightarrow> formats (fst (snd (getFormat font sz col f))) k = Some h"
  by (auto simp: getFormat_def Let_def split: option.splits)

lemma getFormats_keeps: "formats f k = Some h \<Longrightarrow> formats (getFormats calls f) k = Some h"
  by (induction calls f rule: getFormats.induct) (auto dest: getFormat_keeps)

lemma getFormat_stored:
  "formats (fst (snd (getFormat font sz col f))) (getKey font sz col)
     = Some (fst (getFormat font sz col f))"
  by (auto simp: getFormat_def Let_def split: option.splits)

lemma getFormat_found:
  "formats f (getKey font sz col) = Some h \<Longrightarrow> fst (getFormat font sz col f) = h"
  by (auto simp: getFormat_def Let_def split: option.splits)

lemma getFormat_same_triple:
  "fst (getFormat font sz col (getFormats calls (fst (snd (getFormat font sz col f)))))
     = fst (getFormat font sz col f)"
  by (rule getFormat_found, rule getFormats_keeps, rule getFormat_stored)

text \<open>Different keys get different instances.\<close>

lemma factory_wf_new: "factory_wf CharacterFormatFactory_new"
  by (simp add: factory_wf_def CharacterFormatFactory_new_def)

lemma factory_wf_getFormat:
  assumes "factory_wf f"
  shows "factory_wf (fst (snd (getFormat font sz col f)))"
proof (cases "formats f (getKey font sz col)")
  case None
  from assms have lt: "\<And>k h. formats f k = Some h \<Longrightarrow> h < length (pool f)"
    and inj: "\<And>k k' h. formats f k = Some h \<Longrightarrow> formats f k' = Some h \<Longrightarrow> k = k'"
    unfolding factory_wf_def by blast+
  show ?thesis
    unfolding factory_wf_def
  proof (intro conjI allI impI)
    fix k h
    assume "formats (fst (snd (getFormat font sz col f))) k = Some h"
    with None lt [of k h] show "h < length (pool (fst (snd (getFormat font sz col f))))"
      by (auto simp: getFormat_def Let_def split: if_splits)
  next
    fix k k' h
    assume "formats (fst (snd (getFormat font sz col f))) k = Some h"
      and "formats (fst (snd (getFormat font sz col f))) k' = Some h"
    with None lt [of k h] lt [of k' h] inj [of k h k'] show "k = k'"
      by (auto simp: getFormat_def Let_def split: if_splits)
  qed
next
  case (Some h)
  with assms show ?thesis by (simp add: getFormat_def Let_def)
qed

lemma factory_wf_getFormats: "factory_wf f \<Longrightarrow> factory_wf (getFormats calls f)"
  by (induction calls f rule: getFormats.induct) (auto intro: factory_wf_getFormat)

lemma getFormat_distinct_keys:
  assumes wf: "factory_wf f"
    and ne: "getKey font1 sz1 col1 \<noteq> getKey font2 sz2 col2"
  shows "fst (getFormat font2 sz2 col2 (getFormats calls (fst (snd (getFormat font1 sz1 col1 f)))))
     \<noteq> fst (getFormat font1 sz1 col1 f)"
proof -
  let ?h1 = "fst (getFormat font1 sz1 col1 f)"
  let ?f2 = "getFormats calls (fst (snd (getFormat font1 sz1 col1 f)))"
  have wf2: "factory_wf ?f2"
    by (intro factory_wf_getFormats factory_wf_getFormat wf)
  have s1: "formats ?f2 (getKey font1 sz1 col1) = Some ?h1"
    by (intro getFormats_keeps getFormat_stored)
  show ?thesis
  proof (cases "formats ?f2 (getKey font2 sz2 col2)")
    case None
    then have "fst (getFormat font2 sz2 col2 ?f2) = length (pool ?f2)"
      by (simp add: getFormat_def Let_def)
    moreover from wf2 s1 have "?h1 < length (pool ?f2)"
      unfolding factory_wf_def by blast
    ultimately show ?thesis by simp
  next
    case (Some h2)
    then have "fst (getFormat font2 sz2 col2 ?f2) = h2"
      by (simp add: getFormat_def Let_def)
    moreover from wf2 s1 Some ne have "h2 \<noteq> ?h1"
      unfolding factory_wf_def by blast
    ultimately show ?thesis by simp
  qed
qed

text \<open>But the key does not determine the triple.\<close>

lemma getKey_collision: "getKey ''a_1'' 2 ''b'' = getKey ''a'' 1 ''2_b''"
  by (simp add: getKey_def to_string_def)

text \<open>
  C3 (the code at a failing input): on a new factory, \<^verbatim>\<open>getFormat("a_1", 2, "b")\<close> and then
  \<^verbatim>\<open>getFormat("a", 1, "2_b")\<close>. The triples differ in every component, both keys are
  \<^verbatim>\<open>a_1_2_b\<close>, and the second call returns the instance the first one created, whose font is
  \<^verbatim>\<open>a_1\<close>, whose size is \<open>2\<close> and whose colour is \<^verbatim>\<open>b\<close>.
\<close>

theorem getFormat_key_collision:
  "fst (getFormat ''a'' 1 ''2_b''
          (fst (snd (getFormat ''a_1'' 2 ''b'' CharacterFormatFactory_new))))
     = fst (getFormat ''a_1'' 2 ''b'' CharacterFormatFactory_new)
   \<and> pool (fst (snd (getFormat ''a'' 1 ''2_b''
          (fst (snd (getFormat ''a_1'' 2 ''b'' CharacterFormatFactory_new))))))
       ! fst (getFormat ''a'' 1 ''2_b''
          (fst (snd (getFormat ''a_1'' 2 ''b'' CharacterFormatFactory_new))))
     = \<lparr>fontName = ''a_1'', fontSize = 2, color = ''b''\<rparr>"
  by (simp add: getFormat_def getKey_def to_string_def CharacterFormatFactory_new_def Let_def)

end
